theory Spec2Isabelle
  imports Complex_Main "HOL-Library.AList"
begin

section \<open>Values, errors and printed messages\<close>

text \<open>
  A Python \<open>float\<close> is modelled by the number it denotes: a rational, or one of the three
  special values. Arithmetic on finite values is exact; the rounding and the range of
  binary64 are not part of the model (the source does not fix them either: the order and
  compensation of \<open>sum\<close> belong to the interpreter). Every finite binary64 value is a
  rational, so a statement about all \<open>Fin q\<close> covers every finite float.
\<close>

datatype pyfloat = Fin rat | PosInf | NegInf | NaN

text \<open>
  A field of a \<open>csv.DictReader\<close> row is text, or \<open>None\<close> where the record is shorter
  than the header (\<open>restval\<close>).
\<close>

datatype cell = Text string | Missing

text \<open>Python dictionaries keep insertion order; assigning to a present key keeps its place.\<close>

type_synonym ('k, 'v) pydict = "('k \<times> 'v) list"

type_synonym row = "(string, cell) pydict"

datatype value_error =
    CouldNotConvertToFloat string
  | InvalidLiteralForInt string
  | RatingsCannotBeEmpty cell
  | SalesMustHaveExactly nat cell
  | ExceedsAllowedDecimals pyfloat int
  | NotEnoughValuesToUnpack
  | TooManyValuesToUnpack
  | FormatSpecifierMissingPrecision

datatype py_error =
    KeyError string
  | ValueError value_error
  | TypeError
  | AttributeError
  | ZeroDivisionError
  | FileNotFoundError string

section \<open>String operations of the interpreter\<close>

text \<open>\<open>s.split(c)\<close> for a separator of one character: never an empty list.\<close>

fun split_on :: "char \<Rightarrow> string \<Rightarrow> string list" where
  "split_on c [] = [[]]"
| "split_on c (x # xs) =
     (if x = c then [] # split_on c xs
      else (case split_on c xs of
              [] \<Rightarrow> [[x]]
            | w # ws \<Rightarrow> (x # w) # ws))"

text \<open>\<open>s.rstrip(c)\<close> for one character.\<close>

definition rstrip :: "char \<Rightarrow> string \<Rightarrow> string" where
  "rstrip c s = rev (dropWhile (\<lambda>x. x = c) (rev s))"

definition digit_char :: "nat \<Rightarrow> char" where
  "digit_char d = ''0123456789'' ! (d mod 10)"

text \<open>Decimal digits of a natural number, without leading zeros.\<close>

function str_nat :: "nat \<Rightarrow> string" where
  "str_nat n = (if n < 10 then [digit_char n] else str_nat (n div 10) @ [digit_char n])"
  by pat_completeness auto
termination
  by (relation "measure (\<lambda>n. n)") auto

declare str_nat.simps [simp del]

text \<open>The last \<open>p\<close> decimal digits of \<open>n\<close>, padded with zeros to width \<open>p\<close>.\<close>

fun frac_digits :: "nat \<Rightarrow> nat \<Rightarrow> string" where
  "frac_digits 0 n = []"
| "frac_digits (Suc p) n = frac_digits p (n div 10) @ [digit_char n]"

text \<open>
  Rounding to the nearest integer, ties to even, of a non-negative rational: the rounding
  of the interpreter's fixed-point formatting, which is exact on the value of the float.
\<close>

definition round_half_even :: "rat \<Rightarrow> nat" where
  "round_half_even x =
     (let f = nat \<lfloor>x\<rfloor>; r = x - of_nat f
      in if r < 1 / 2 then f
         else if 1 / 2 < r then f + 1
         else if even f then f else f + 1)"

text \<open>
  \<open>f"{value:.{p}f}"\<close>: sign, integer digits, and for \<open>p > 0\<close> a point and exactly \<open>p\<close>
  fractional digits. The special values print without a point.
\<close>

fun format_f :: "pyfloat \<Rightarrow> nat \<Rightarrow> string" where
  "format_f (Fin q) p =
     (let n = round_half_even (\<bar>q\<bar> * 10 ^ p)
      in (if q < 0 then ''-'' else '''') @ str_nat (n div 10 ^ p) @
         (if p = 0 then '''' else ''.'' @ frac_digits p n))"
| "format_f PosInf p = ''inf''"
| "format_f NegInf p = ''-inf''"
| "format_f NaN p = ''nan''"

section \<open>Float Precision Validator\<close>

text \<open>
  \<open>validate_float_precision(value, max_decimals)\<close>. A negative precision is refused by
  the format specification; the unpacking of the split needs exactly two parts.
\<close>

definition validate_float_precision :: "pyfloat \<Rightarrow> int \<Rightarrow> py_error + bool" where
  "validate_float_precision v max_decimals =
     (if max_decimals + 1 < 0 then Inl (ValueError FormatSpecifierMissingPrecision)
      else
        let str_value = format_f v (nat (max_decimals + 1))
        in (case split_on CHR ''.'' str_value of
              [_, fractional_part] \<Rightarrow>
                if int (length (rstrip CHR ''0'' fractional_part)) > max_decimals
                then Inl (ValueError (ExceedsAllowedDecimals v max_decimals))
                else Inr True
            | [] \<Rightarrow> Inl (ValueError NotEnoughValuesToUnpack)
            | [_] \<Rightarrow> Inl (ValueError NotEnoughValuesToUnpack)
            | _ \<Rightarrow> Inl (ValueError TooManyValuesToUnpack)))"

section \<open>The interpreter's numeric parsers\<close>

text \<open>
  \<open>float(s)\<close> and \<open>int(s)\<close> on text: surrounding whitespace is dropped, an underscore
  is allowed only between two digits, then an optional sign and the literal. The value of
  a decimal literal is taken exactly.
\<close>

definition is_space :: "char \<Rightarrow> bool" where
  "is_space c = (let n = (of_char c :: nat) in (9 \<le> n \<and> n \<le> 13) \<or> (28 \<le> n \<and> n \<le> 32))"

definition is_digit :: "char \<Rightarrow> bool" where
  "is_digit c = (let n = (of_char c :: nat) in 48 \<le> n \<and> n \<le> 57)"

definition digit_val :: "char \<Rightarrow> nat" where
  "digit_val c = of_char c - 48"

definition to_lower :: "char \<Rightarrow> char" where
  "to_lower c = (let n = (of_char c :: nat) in if 65 \<le> n \<and> n \<le> 90 then char_of (n + 32) else c)"

definition strip :: "string \<Rightarrow> string" where
  "strip s = rev (dropWhile is_space (rev (dropWhile is_space s)))"

fun underscores_ok :: "bool \<Rightarrow> string \<Rightarrow> bool" where
  "underscores_ok prev_digit [] = True"
| "underscores_ok prev_digit (c # cs) =
     (if c = CHR ''_''
      then prev_digit \<and> (case cs of [] \<Rightarrow> False | d # _ \<Rightarrow> is_digit d) \<and> underscores_ok False cs
      else underscores_ok (is_digit c) cs)"

definition nat_of_digits :: "string \<Rightarrow> nat" where
  "nat_of_digits ds = foldl (\<lambda>a c. 10 * a + digit_val c) 0 ds"

definition parse_sign :: "string \<Rightarrow> bool \<times> string" where
  "parse_sign s =
     (case s of
        [] \<Rightarrow> (False, s)
      | c # r \<Rightarrow> if c = CHR ''-'' then (True, r) else if c = CHR ''+'' then (False, r) else (False, s))"

definition scale10 :: "nat \<Rightarrow> int \<Rightarrow> rat" where
  "scale10 m e = (if 0 \<le> e then of_nat m * 10 ^ nat e else of_nat m / 10 ^ nat (- e))"

text \<open>
  A decimal literal without sign: digits, an optional point and digits (at least one digit
  in all), an optional exponent with its own sign and at least one digit.
\<close>

definition parse_decimal :: "string \<Rightarrow> rat option" where
  "parse_decimal s =
     (let ip = takeWhile is_digit s; r1 = dropWhile is_digit s;
          fp = (case r1 of [] \<Rightarrow> [] | c # t \<Rightarrow> if c = CHR ''.'' then takeWhile is_digit t else []);
          r2 = (case r1 of [] \<Rightarrow> [] | c # t \<Rightarrow> if c = CHR ''.'' then dropWhile is_digit t else r1);
          m = nat_of_digits (ip @ fp)
      in if ip = [] \<and> fp = [] then None
         else (case r2 of
                 [] \<Rightarrow> Some (scale10 m (- int (length fp)))
               | c # t \<Rightarrow>
                   if c = CHR ''e'' \<or> c = CHR ''E''
                   then (let (neg, ds) = parse_sign t
                         in if ds \<noteq> [] \<and> list_all is_digit ds
                            then Some (scale10 m ((if neg then - int (nat_of_digits ds)
                                                   else int (nat_of_digits ds)) - int (length fp)))
                            else None)
                   else None))"

definition py_float :: "string \<Rightarrow> py_error + pyfloat" where
  "py_float s =
     (let t = strip s
      in if \<not> underscores_ok False t then Inl (ValueError (CouldNotConvertToFloat s))
         else
           let (neg, b) = parse_sign (filter (\<lambda>c. c \<noteq> CHR ''_'') t);
               lb = map to_lower b
           in if lb = ''inf'' \<or> lb = ''infinity'' then Inr (if neg then NegInf else PosInf)
              else if lb = ''nan'' then Inr NaN
              else (case parse_decimal b of
                      None \<Rightarrow> Inl (ValueError (CouldNotConvertToFloat s))
                    | Some q \<Rightarrow> Inr (Fin (if neg then - q else q))))"

definition py_int :: "string \<Rightarrow> py_error + int" where
  "py_int s =
     (let t = strip s; (neg, b) = parse_sign t; ds = filter (\<lambda>c. c \<noteq> CHR ''_'') b
      in if underscores_ok False b \<and> ds \<noteq> [] \<and> list_all is_digit ds
         then Inr (if neg then - int (nat_of_digits ds) else int (nat_of_digits ds))
         else Inl (ValueError (InvalidLiteralForInt s)))"

text \<open>\<open>float(x)\<close> on a field of a row: \<open>None\<close> is a type error.\<close>

fun float_of_cell :: "cell \<Rightarrow> py_error + pyfloat" where
  "float_of_cell (Text s) = py_float s"
| "float_of_cell Missing = Inl TypeError"

text \<open>A list comprehension over a fallible function stops at the first failure.\<close>

fun collect :: "('a \<Rightarrow> py_error + 'b) \<Rightarrow> 'a list \<Rightarrow> py_error + 'b list" where
  "collect f [] = Inr []"
| "collect f (x # xs) =
     (case f x of
        Inl e \<Rightarrow> Inl e
      | Inr y \<Rightarrow> (case collect f xs of Inl e \<Rightarrow> Inl e | Inr ys \<Rightarrow> Inr (y # ys)))"

section \<open>Dictionaries\<close>

definition getitem :: "(string, 'v) pydict \<Rightarrow> string \<Rightarrow> py_error + 'v" where
  "getitem d k = (case map_of d k of None \<Rightarrow> Inl (KeyError k) | Some v \<Rightarrow> Inr v)"

definition dict_of :: "('k \<times> 'v) list \<Rightarrow> ('k, 'v) pydict" where
  "dict_of kvs = fold (\<lambda>(k, v) d. AList.update k v d) kvs []"

definition dict_values :: "('k, 'v) pydict \<Rightarrow> 'v list" where
  "dict_values d = map snd d"

section \<open>Class MenuItem\<close>

record menu_item =
  item :: cell
  price :: pyfloat
  category :: cell
  ratings :: "pyfloat list"
  sales_per_day :: "(string, int) pydict"

definition days_of_week :: "string list" where
  "days_of_week = [''Mon'', ''Tue'', ''Wed'', ''Thu'', ''Fri'', ''Sat'', ''Sun'']"

text \<open>
  \<open>MenuItem.__init__\<close>: the ratings are parsed first, then the (unreachable) emptiness
  test, then the count of the sales tokens, then their parsing. A \<open>None\<close> field has no
  \<open>split\<close>.
\<close>

definition MenuItem_init ::
  "cell \<Rightarrow> pyfloat \<Rightarrow> cell \<Rightarrow> cell \<Rightarrow> cell \<Rightarrow> py_error + menu_item" where
  "MenuItem_init item_arg price_arg category_arg ratings_arg sales_arg =
     (case ratings_arg of
        Missing \<Rightarrow> Inl AttributeError
      | Text rtext \<Rightarrow>
          (case collect py_float (split_on CHR '','' rtext) of
             Inl e \<Rightarrow> Inl e
           | Inr rs \<Rightarrow>
               if rs = [] then Inl (ValueError (RatingsCannotBeEmpty item_arg))
               else
                 (case sales_arg of
                    Missing \<Rightarrow> Inl AttributeError
                  | Text stext \<Rightarrow>
                      let sales_values = split_on CHR '','' stext
                      in if length sales_values \<noteq> 7
                         then Inl (ValueError (SalesMustHaveExactly 7 item_arg))
                         else
                           (case collect (\<lambda>(day, sales). case py_int sales of
                                                             Inl e \<Rightarrow> Inl e
                                                           | Inr n \<Rightarrow> Inr (day, n))
                                   (zip days_of_week sales_values) of
                              Inl e \<Rightarrow> Inl e
                            | Inr kvs \<Rightarrow>
                                Inr \<lparr>item = item_arg, price = price_arg,
                                     category = category_arg, ratings = rs,
                                     sales_per_day = dict_of kvs\<rparr>))))"

section \<open>Float arithmetic and the derived metrics\<close>

fun fadd :: "pyfloat \<Rightarrow> pyfloat \<Rightarrow> pyfloat" where
  "fadd (Fin a) (Fin b) = Fin (a + b)"
| "fadd NaN _ = NaN"
| "fadd _ NaN = NaN"
| "fadd PosInf NegInf = NaN"
| "fadd NegInf PosInf = NaN"
| "fadd PosInf _ = PosInf"
| "fadd _ PosInf = PosInf"
| "fadd NegInf _ = NegInf"
| "fadd _ NegInf = NegInf"

fun fneg :: "pyfloat \<Rightarrow> pyfloat" where
  "fneg (Fin a) = Fin (- a)"
| "fneg PosInf = NegInf"
| "fneg NegInf = PosInf"
| "fneg NaN = NaN"

fun fmul :: "pyfloat \<Rightarrow> pyfloat \<Rightarrow> pyfloat" where
  "fmul (Fin a) (Fin b) = Fin (a * b)"
| "fmul NaN _ = NaN"
| "fmul _ NaN = NaN"
| "fmul (Fin a) b = (if a = 0 then NaN else if 0 < a then b else fneg b)"
| "fmul a (Fin b) = (if b = 0 then NaN else if 0 < b then a else fneg a)"
| "fmul a b = (if a = b then PosInf else NegInf)"

text \<open>\<open>x / n\<close> for a float and an integer.\<close>

fun truediv :: "pyfloat \<Rightarrow> int \<Rightarrow> py_error + pyfloat" where
  "truediv x n =
     (if n = 0 then Inl ZeroDivisionError
      else Inr (case x of
                  Fin a \<Rightarrow> Fin (a / of_int n)
                | PosInf \<Rightarrow> if 0 < n then PosInf else NegInf
                | NegInf \<Rightarrow> if 0 < n then NegInf else PosInf
                | NaN \<Rightarrow> NaN))"

text \<open>Comparisons: every comparison with \<open>nan\<close> is false.\<close>

fun flt :: "pyfloat \<Rightarrow> pyfloat \<Rightarrow> bool" where
  "flt (Fin a) (Fin b) = (a < b)"
| "flt NaN _ = False"
| "flt _ NaN = False"
| "flt _ NegInf = False"
| "flt PosInf _ = False"
| "flt _ _ = True"

definition fge :: "pyfloat \<Rightarrow> pyfloat \<Rightarrow> bool" where
  "fge a b = (a \<noteq> NaN \<and> b \<noteq> NaN \<and> \<not> flt a b)"

text \<open>\<open>sum(xs)\<close> of floats, from the integer \<open>0\<close>.\<close>

definition py_sum :: "pyfloat list \<Rightarrow> pyfloat" where
  "py_sum xs = foldl fadd (Fin 0) xs"

definition average_rating :: "menu_item \<Rightarrow> py_error + pyfloat" where
  "average_rating it =
     (if ratings it \<noteq> [] then truediv (py_sum (ratings it)) (int (length (ratings it)))
      else Inr (Fin 0))"

text \<open>\<open>sum(item.sales_per_day.values())\<close>, on unbounded integers.\<close>

definition total_sales :: "menu_item \<Rightarrow> int" where
  "total_sales it = sum_list (dict_values (sales_per_day it))"

text \<open>The expression of \<open>analyze_popular_items\<close>: \<open>(total_sales * 0.6) + (avg_rating * 10 * 0.4)\<close>.\<close>

definition popularity_score :: "int \<Rightarrow> pyfloat \<Rightarrow> pyfloat" where
  "popularity_score tot avg =
     fadd (fmul (Fin (of_int tot)) (Fin (6 / 10)))
          (fmul (fmul avg (Fin 10)) (Fin (4 / 10)))"

section \<open>CSV handling\<close>

text \<open>
  A file is the list of records that \<open>csv.reader\<close> yields (a blank line is the empty
  record); the file system maps a name to its file, \<open>None\<close> where \<open>open\<close> fails.
  \<open>csv.DictReader\<close> takes the first record as \<open>fieldnames\<close>, skips empty records and
  turns each other record into a dictionary, with \<open>None\<close> for the fields a short record
  lacks. The surplus fields of a long record (filed under the key \<open>None\<close>) are never
  read by the program and are left out of the row.
\<close>

type_synonym csv_text = "string list list"

type_synonym filesystem = "string \<rightharpoonup> csv_text"

definition DictReader_fieldnames :: "csv_text \<Rightarrow> string list option" where
  "DictReader_fieldnames recs = (case recs of [] \<Rightarrow> None | h # _ \<Rightarrow> Some h)"

definition DictReader_row :: "string list \<Rightarrow> string list \<Rightarrow> row" where
  "DictReader_row fieldnames r =
     dict_of (zip fieldnames (map Text r) @
              map (\<lambda>k. (k, Missing)) (drop (length r) fieldnames))"

definition DictReader_rows :: "csv_text \<Rightarrow> row list" where
  "DictReader_rows recs =
     (case recs of
        [] \<Rightarrow> []
      | h # rest \<Rightarrow> map (DictReader_row h) (filter (\<lambda>r. r \<noteq> []) rest))"

datatype tcell = TCell cell | TInt int

datatype message =
    EmptyOrMalformed string
  | MissingColumns "string list"
  | RequiredColumns "string list"
  | FileNotFoundAfterCreation string
  | DataErrorInRow nat py_error
  | ProblematicRow row
  | CriticalLoadError py_error
  | TerminatedInvalidStructure
  | TerminatedLoadFailed
  | PopularHeading
  | UnderratedHeading
  | UnprofitableHeading
  | NoUnderratedItemsFound
  | NoUnprofitableItemsFound
  | TableHeader "string list"
  | TableRule
  | TableRow "tcell list"

definition required_fields :: "string list" where
  "required_fields = [''item'', ''price'', ''category'', ''ratings'', ''sales_per_day'']"

text \<open>\<open>validate_csv_structure\<close>: what it prints, and what it returns.\<close>

definition validate_csv_structure :: "filesystem \<Rightarrow> string \<Rightarrow> message list \<times> bool" where
  "validate_csv_structure fs filename =
     (case fs filename of
        None \<Rightarrow> ([FileNotFoundAfterCreation filename], False)
      | Some recs \<Rightarrow>
          (case DictReader_fieldnames recs of
             None \<Rightarrow> ([EmptyOrMalformed filename], False)
           | Some fieldnames \<Rightarrow>
               if fieldnames = [] then ([EmptyOrMalformed filename], False)
               else
                 let missing_fields = filter (\<lambda>field. field \<notin> set fieldnames) required_fields
                 in if missing_fields \<noteq> []
                    then ([MissingColumns missing_fields, RequiredColumns required_fields], False)
                    else ([], True)))"

text \<open>The records that \<open>generate_sample_csv\<close> writes.\<close>

definition sample_data :: csv_text where
  "sample_data =
     [[''item'', ''price'', ''category'', ''ratings'', ''sales_per_day''],
      [''Chicken Parmigiana'', ''19.99'', ''Main'', ''4.5,4.7,5.0'', ''10,15,20,25,30,35,40''],
      [''Fish and Chips'', ''18.99'', ''Main'', ''4.8,4.9,4.7'', ''5,10,15,20,25,30,35''],
      [''Margherita Pizza'', ''15.99'', ''Main'', ''4.0,4.2,4.3'', ''50,60,70,80,90,100,110''],
      [''Caesar Salad'', ''9.99'', ''Starter'', ''4.5,4.6,4.8'', ''20,25,30,35,40,45,50''],
      [''Garlic Bread'', ''6.99'', ''Starter'', ''4.8,4.9,4.7'', ''10,5,1,15,3,5,10''],
      [''Tiramisu'', ''7.99'', ''Dessert'', ''4.7,4.8,4.9'', ''15,20,25,30,35,40,45''],
      [''Cheesecake'', ''6.99'', ''Dessert'', ''2.5,2.7,2.8'', ''1,2,3,4,5,6,7'']]"

section \<open>Data processing\<close>

type_synonym menu = "(cell, menu_item) pydict"

text \<open>
  The body of the \<open>try\<close> for one row, up to the key under which the item is stored:
  the price is parsed and validated, the fields are read in the order of the call, the
  item is built, and \<open>row['item']\<close> is read again for the assignment.
\<close>

definition parse_row :: "row \<Rightarrow> py_error + cell \<times> menu_item" where
  "parse_row r =
     (case getitem r ''price'' of
        Inl e \<Rightarrow> Inl e
      | Inr price_cell \<Rightarrow>
     (case float_of_cell price_cell of
        Inl e \<Rightarrow> Inl e
      | Inr price_val \<Rightarrow>
     (case validate_float_precision price_val 2 of
        Inl e \<Rightarrow> Inl e
      | Inr _ \<Rightarrow>
     (case getitem r ''item'' of
        Inl e \<Rightarrow> Inl e
      | Inr item_cell \<Rightarrow>
     (case getitem r ''category'' of
        Inl e \<Rightarrow> Inl e
      | Inr category_cell \<Rightarrow>
     (case getitem r ''ratings'' of
        Inl e \<Rightarrow> Inl e
      | Inr ratings_cell \<Rightarrow>
     (case getitem r ''sales_per_day'' of
        Inl e \<Rightarrow> Inl e
      | Inr sales_cell \<Rightarrow>
     (case MenuItem_init item_cell price_val category_cell ratings_cell sales_cell of
        Inl e \<Rightarrow> Inl e
      | Inr it \<Rightarrow>
     (case getitem r ''item'' of
        Inl e \<Rightarrow> Inl e
      | Inr key \<Rightarrow> Inr (key, it))))))))))"

text \<open>The inner handler catches \<open>KeyError\<close> and \<open>ValueError\<close>; the outer one everything.\<close>

fun caught_inner :: "py_error \<Rightarrow> bool" where
  "caught_inner (KeyError _) = True"
| "caught_inner (ValueError _) = True"
| "caught_inner _ = False"

text \<open>The loop over \<open>enumerate(reader, 1)\<close>: the first failing row ends the load.\<close>

fun load_rows :: "nat \<Rightarrow> row list \<Rightarrow> menu \<Rightarrow> message list \<times> menu option" where
  "load_rows row_num [] menu_items = ([], Some menu_items)"
| "load_rows row_num (r # rest) menu_items =
     (case parse_row r of
        Inr (key, it) \<Rightarrow> load_rows (row_num + 1) rest (AList.update key it menu_items)
      | Inl e \<Rightarrow>
          if caught_inner e then ([DataErrorInRow row_num e, ProblematicRow r], None)
          else ([CriticalLoadError e], None))"

definition load_data_from_csv :: "filesystem \<Rightarrow> string \<Rightarrow> message list \<times> menu option" where
  "load_data_from_csv fs filename =
     (case fs filename of
        None \<Rightarrow> ([CriticalLoadError (FileNotFoundError filename)], None)
      | Some recs \<Rightarrow> load_rows 1 (DictReader_rows recs) [])"

section \<open>Display and analyses\<close>

text \<open>
  A table is printed as its header, a rule, and its rows; the padding to the column widths
  is left out. Formatting \<open>None\<close> with a width is a type error, raised when the first
  row holding it is rendered, after the rows before it were printed.
\<close>

definition formattable :: "tcell list \<Rightarrow> bool" where
  "formattable r = (TCell Missing \<notin> set r)"

definition print_table :: "string list \<Rightarrow> tcell list list \<Rightarrow> message list \<times> py_error option" where
  "print_table headers rows =
     (let good = takeWhile formattable rows
      in (TableHeader headers # TableRule # map TableRow good,
          if length good < length rows then Some TypeError else None))"

definition str_int :: "int \<Rightarrow> string" where
  "str_int i = (if i < 0 then ''-'' @ str_nat (nat (- i)) else str_nat (nat i))"

fun join :: "string \<Rightarrow> string list \<Rightarrow> string" where
  "join sep [] = []"
| "join sep [x] = x"
| "join sep (x # y # ys) = x @ sep @ join sep (y # ys)"

fun display_rows :: "menu_item list \<Rightarrow> py_error + tcell list list" where
  "display_rows [] = Inr []"
| "display_rows (it # its) =
     (case average_rating it of
        Inl e \<Rightarrow> Inl e
      | Inr avg \<Rightarrow>
          (case display_rows its of
             Inl e \<Rightarrow> Inl e
           | Inr rows \<Rightarrow>
               Inr ([TCell (item it),
                     TCell (Text (''$'' @ format_f (price it) 2)),
                     TCell (category it),
                     TCell (Text (format_f avg 2)),
                     TCell (Text (join '', '' (map (\<lambda>(k, v). k @ '':'' @ str_int v)
                                                   (sales_per_day it))))] # rows)))"

definition display_menu :: "menu \<Rightarrow> message list \<times> py_error option" where
  "display_menu menu_items =
     (case display_rows (dict_values menu_items) of
        Inl e \<Rightarrow> ([], Some e)
      | Inr rows \<Rightarrow>
          print_table [''Item'', ''Price'', ''Category'', ''Avg Rating'', ''Sales/Day''] rows)"

fun popular_loop :: "menu_item list \<Rightarrow> tcell list list \<Rightarrow> py_error + tcell list list" where
  "popular_loop [] rows = Inr rows"
| "popular_loop (it # its) rows =
     (let tot = total_sales it
      in case average_rating it of
           Inl e \<Rightarrow> Inl e
         | Inr avg_rating \<Rightarrow>
             popular_loop its
               (rows @ [[TCell (item it), TCell (category it),
                         TCell (Text (format_f avg_rating 2)), TInt tot,
                         TCell (Text (format_f (popularity_score tot avg_rating) 2))]]))"

definition analyze_popular_items :: "menu \<Rightarrow> message list \<times> py_error option" where
  "analyze_popular_items menu_items =
     (case popular_loop (dict_values menu_items) [] of
        Inl e \<Rightarrow> ([PopularHeading], Some e)
      | Inr rows \<Rightarrow>
          (let (out, err) = print_table [''Item'', ''Category'', ''Avg Rating'', ''Total Sales'',
                                         ''Popularity Score''] rows
           in (PopularHeading # out, err)))"

definition report_row :: "menu_item \<Rightarrow> pyfloat \<Rightarrow> int \<Rightarrow> tcell list" where
  "report_row it avg_rating tot =
     [TCell (item it), TCell (category it), TCell (Text (format_f avg_rating 2)), TInt tot]"

fun underrated_loop :: "menu_item list \<Rightarrow> tcell list list \<Rightarrow> py_error + tcell list list" where
  "underrated_loop [] rows = Inr rows"
| "underrated_loop (it # its) rows =
     (let tot = total_sales it
      in case average_rating it of
           Inl e \<Rightarrow> Inl e
         | Inr avg_rating \<Rightarrow>
             if fge avg_rating (Fin (45 / 10)) \<and> tot < 50
             then underrated_loop its (rows @ [report_row it avg_rating tot])
             else underrated_loop its rows)"

definition identify_underrated_items :: "menu \<Rightarrow> message list \<times> py_error option" where
  "identify_underrated_items menu_items =
     (case underrated_loop (dict_values menu_items) [] of
        Inl e \<Rightarrow> ([UnderratedHeading], Some e)
      | Inr rows \<Rightarrow>
          if rows = [] then ([UnderratedHeading, NoUnderratedItemsFound], None)
          else (let (out, err) = print_table [''Item'', ''Category'', ''Avg Rating'',
                                              ''Total Sales''] rows
                in (UnderratedHeading # out, err)))"

fun unprofitable_loop :: "menu_item list \<Rightarrow> tcell list list \<Rightarrow> py_error + tcell list list" where
  "unprofitable_loop [] rows = Inr rows"
| "unprofitable_loop (it # its) rows =
     (let tot = total_sales it
      in case average_rating it of
           Inl e \<Rightarrow> Inl e
         | Inr avg_rating \<Rightarrow>
             if flt avg_rating (Fin (35 / 10)) \<and> tot < 30
             then unprofitable_loop its (rows @ [report_row it avg_rating tot])
             else unprofitable_loop its rows)"

definition identify_unprofitable_items :: "menu \<Rightarrow> message list \<times> py_error option" where
  "identify_unprofitable_items menu_items =
     (case unprofitable_loop (dict_values menu_items) [] of
        Inl e \<Rightarrow> ([UnprofitableHeading], Some e)
      | Inr rows \<Rightarrow>
          if rows = [] then ([UnprofitableHeading, NoUnprofitableItemsFound], None)
          else (let (out, err) = print_table [''Item'', ''Category'', ''Avg Rating'',
                                              ''Total Sales''] rows
                in (UnprofitableHeading # out, err)))"

section \<open>Main flow\<close>

text \<open>
  Statements run in sequence until one raises: the output so far is kept.
\<close>

fun run_seq :: "(message list \<times> py_error option) list \<Rightarrow> message list \<times> py_error option" where
  "run_seq [] = ([], None)"
| "run_seq ((out, err) # rest) =
     (case err of
        Some e \<Rightarrow> (out, Some e)
      | None \<Rightarrow> (let (out', err') = run_seq rest in (out @ out', err')))"

text \<open>
  \<open>main\<close> from its second step, on the file that the first step (the banner and the
  interactive choice of the file) has settled: structure validation, loading, and the
  four reports. The result is the printed output and the exception that ends the run, if
  any.
\<close>

definition main :: "filesystem \<Rightarrow> string \<Rightarrow> message list \<times> py_error option" where
  "main fs sample_csv =
     (let (out1, ok) = validate_csv_structure fs sample_csv
      in if \<not> ok then (out1 @ [TerminatedInvalidStructure], None)
         else
           let (out2, menu_data) = load_data_from_csv fs sample_csv
           in (case menu_data of
                 None \<Rightarrow> (out1 @ out2 @ [TerminatedLoadFailed], None)
               | Some m \<Rightarrow>
                   if m = [] then (out1 @ out2 @ [TerminatedLoadFailed], None)
                   else
                     (let (out3, err) = run_seq [display_menu m, analyze_popular_items m,
                                                 identify_underrated_items m,
                                                 identify_unprofitable_items m]
                      in (out1 @ out2 @ out3, err))))"

section \<open>Example inputs\<close>

text \<open>Small files and two items of the sample, for the concrete instances below.\<close>

definition duplicate_name_file :: csv_text where
  "duplicate_name_file =
     [[''item'', ''price'', ''category'', ''ratings'', ''sales_per_day''],
      [''Soup'', ''4.50'', ''Starter'', ''4.0'', ''1,2,3,4,5,6,7''],
      [''Soup'', ''5.25'', ''Main'', ''3.0,5.0'', ''7,6,5,4,3,2,1'']]"

definition bad_price_file :: csv_text where
  "bad_price_file =
     [[''item'', ''price'', ''category'', ''ratings'', ''sales_per_day''],
      [''Soup'', ''4.50'', ''Starter'', ''4.0'', ''1,2,3,4,5,6,7''],
      [''Cake'', ''6.999'', ''Dessert'', ''2.5'', ''1,2,3,4,5,6,7'']]"

definition negative_price_file :: csv_text where
  "negative_price_file =
     [[''item'', ''price'', ''category'', ''ratings'', ''sales_per_day''],
      [''Soup'', ''-5.00'', ''Starter'', ''4.0'', ''1,2,3,4,5,6,7'']]"

definition no_category_file :: csv_text where
  "no_category_file =
     [[''item'', ''price'', ''ratings'', ''sales_per_day''],
      [''Soup'', ''4.50'', ''4.0'', ''1,2,3,4,5,6,7'']]"

definition garlic_bread :: menu_item where
  "garlic_bread =
     \<lparr>item = Text ''Garlic Bread'', price = Fin (699 / 100), category = Text ''Starter'',
      ratings = [Fin (24 / 5), Fin (49 / 10), Fin (47 / 10)],
      sales_per_day = [(''Mon'', 10), (''Tue'', 5), (''Wed'', 1), (''Thu'', 15),
                       (''Fri'', 3), (''Sat'', 5), (''Sun'', 10)]\<rparr>"


section \<open>Facts about the string operations and the validator\<close>

lemma split_on_not_Nil: "split_on c s \<noteq> []"
  by (induction s) (auto split: list.splits)

lemma split_on_no_sep: "c \<notin> set s \<Longrightarrow> split_on c s = [s]"
  by (induction s) auto

lemma split_on_one_sep:
  "c \<notin> set a \<Longrightarrow> c \<notin> set b \<Longrightarrow> split_on c (a @ c # b) = [a, b]"
  by (induction a) (auto simp: split_on_no_sep)

lemma digit_char_mem: "digit_char d \<in> set ''0123456789''"
  unfolding digit_char_def by (rule nth_mem) simp

lemma digit_char_not_point: "digit_char d \<noteq> CHR ''.''" "CHR ''.'' \<noteq> digit_char d"
  using digit_char_mem [of d] by auto

lemma digit_nth_zero_iff:
  "k < 10 \<Longrightarrow> (''0123456789'' ! k = CHR ''0'') = (k = 0)"
proof -
  assume "k < 10"
  then consider "k = 0" | "k = 1" | "k = 2" | "k = 3" | "k = 4" | "k = 5" | "k = 6" | "k = 7"
    | "k = 8" | "k = 9" by atomize_elim arith
  then show ?thesis by cases simp_all
qed

lemma digit_char_zero_iff: "digit_char d = CHR ''0'' \<longleftrightarrow> d mod 10 = 0"
  unfolding digit_char_def by (rule digit_nth_zero_iff) simp

lemma point_notin_str_nat: "CHR ''.'' \<notin> set (str_nat n)"
proof (induction n rule: str_nat.induct)
  case (1 n)
  show ?case
  proof (cases "n < 10")
    case True
    then show ?thesis by (subst str_nat.simps) (simp add: digit_char_not_point)
  next
    case False
    with 1 show ?thesis by (subst str_nat.simps) (simp add: digit_char_not_point)
  qed
qed

lemma point_notin_frac_digits: "CHR ''.'' \<notin> set (frac_digits p n)"
  by (induction p arbitrary: n) (auto simp: digit_char_not_point)

lemma length_frac_digits: "length (frac_digits p n) = p"
  by (induction p arbitrary: n) auto

lemma rstrip_snoc:
  "rstrip c (s @ [x]) = (if x = c then rstrip c s else s @ [x])"
  by (simp add: rstrip_def)

lemma length_rstrip_le: "length (rstrip c s) \<le> length s"
  by (simp add: rstrip_def) (metis length_dropWhile_le length_rev)

lemma rstrip_frac_digits:
  "p < length (rstrip CHR ''0'' (frac_digits (Suc p) n)) \<longleftrightarrow> n mod 10 \<noteq> 0"
  using length_rstrip_le [of "CHR ''0''" "frac_digits p (n div 10)"]
  by (simp add: rstrip_snoc digit_char_zero_iff length_frac_digits)

lemma split_format_f:
  "split_on CHR ''.'' (format_f (Fin q) (Suc p)) =
     [(if q < 0 then ''-'' else '''') @ str_nat (round_half_even (\<bar>q\<bar> * 10 ^ Suc p) div 10 ^ Suc p),
      frac_digits (Suc p) (round_half_even (\<bar>q\<bar> * 10 ^ Suc p))]"
proof -
  let ?n = "round_half_even (\<bar>q\<bar> * 10 ^ Suc p)"
  let ?a = "(if q < 0 then ''-'' else '''') @ str_nat (?n div 10 ^ Suc p)"
  have a: "CHR ''.'' \<notin> set ?a" using point_notin_str_nat by simp
  have eq: "format_f (Fin q) (Suc p) = ?a @ CHR ''.'' # frac_digits (Suc p) ?n"
    by (simp add: Let_def del: frac_digits.simps power_Suc)
  show ?thesis
    unfolding eq by (rule split_on_one_sep [OF a point_notin_frac_digits])
qed

lemma validate_float_precision_Fin:
  assumes "0 \<le> m"
  shows "validate_float_precision (Fin q) m =
     (if round_half_even (\<bar>q\<bar> * 10 ^ nat (m + 1)) mod 10 = 0 then Inr True
      else Inl (ValueError (ExceedsAllowedDecimals (Fin q) m)))"
proof -
  obtain p where p: "m = int p" using assms nonneg_int_cases by blast
  have n: "nat (m + 1) = Suc p" using p by simp
  show ?thesis
    unfolding validate_float_precision_def n Let_def split_format_f
    using rstrip_frac_digits [of p "round_half_even (\<bar>q\<bar> * 10 ^ Suc p)"] p
    by (simp del: frac_digits.simps)
qed

lemma round_half_even_of_nat: "round_half_even (of_nat k) = k"
  by (simp add: round_half_even_def)

lemma validate_accepts_two_decimals:
  "validate_float_precision (Fin (of_int k / 100)) 2 = Inr True"
proof -
  have e: "\<bar>rat_of_int k / 100\<bar> * 10 ^ nat (2 + 1) = of_nat (nat \<bar>k\<bar> * 10)"
    by (simp add: numeral_3_eq_3 abs_if)
  have v: "validate_float_precision (Fin (of_int k / 100)) 2 =
     (if round_half_even (\<bar>rat_of_int k / 100\<bar> * 10 ^ nat (2 + 1)) mod 10 = 0 then Inr True
      else Inl (ValueError (ExceedsAllowedDecimals (Fin (of_int k / 100)) 2)))"
    by (rule validate_float_precision_Fin) simp
  show ?thesis unfolding v e round_half_even_of_nat by simp
qed

lemma validate_rejects_three_decimals:
  assumes "k mod 10 \<noteq> 0"
  shows "validate_float_precision (Fin (of_int k / 1000)) 2 =
     Inl (ValueError (ExceedsAllowedDecimals (Fin (of_int k / 1000)) 2))"
proof -
  have e: "\<bar>rat_of_int k / 1000\<bar> * 10 ^ nat (2 + 1) = of_nat (nat \<bar>k\<bar>)"
    by (simp add: numeral_3_eq_3 abs_if)
  have nz: "nat \<bar>k\<bar> mod 10 \<noteq> 0"
  proof -
    have "\<not> (10::int) dvd k" using assms by (simp add: dvd_eq_mod_eq_0)
    then have "\<not> int 10 dvd int (nat \<bar>k\<bar>)" by simp
    then have "\<not> (10::nat) dvd nat \<bar>k\<bar>" unfolding int_dvd_int_iff .
    then show ?thesis by (simp add: dvd_eq_mod_eq_0)
  qed
  have v: "validate_float_precision (Fin (of_int k / 1000)) 2 =
     (if round_half_even (\<bar>rat_of_int k / 1000\<bar> * 10 ^ nat (2 + 1)) mod 10 = 0 then Inr True
      else Inl (ValueError (ExceedsAllowedDecimals (Fin (of_int k / 1000)) 2)))"
    by (rule validate_float_precision_Fin) simp
  show ?thesis unfolding v e round_half_even_of_nat using nz by simp
qed

section \<open>Facts about comprehensions, dictionaries and the loading loop\<close>

lemma collect_Inr_iff: "collect f xs = Inr ys \<longleftrightarrow> map f xs = map Inr ys"
proof (induction xs arbitrary: ys)
  case Nil
  then show ?case by auto
next
  case (Cons x xs)
  show ?case
  proof (cases "f x")
    case (Inl e)
    then show ?thesis by auto
  next
    case (Inr y)
    show ?thesis
    proof (cases "collect f xs")
      case (Inl e)
      with Inr Cons.IH show ?thesis by (cases ys) auto
    next
      case r: (Inr zs)
      with Inr Cons.IH [of zs] Cons.IH show ?thesis by (cases ys) auto
    qed
  qed
qed

lemma collect_Inl_iff: "(\<exists>e. collect f xs = Inl e) \<longleftrightarrow> (\<exists>x \<in> set xs. \<exists>e. f x = Inl e)"
  by (induction xs) (auto split: sum.splits)

lemma collect_length: "collect f xs = Inr ys \<Longrightarrow> length ys = length xs"
  using collect_Inr_iff [of f xs ys] by (metis length_map)

lemma update_fresh: "k \<notin> fst ` set al \<Longrightarrow> AList.update k v al = al @ [(k, v)]"
  by (induction al) auto

lemma fold_update_distinct:
  "distinct (map fst (acc @ kvs)) \<Longrightarrow> fold (\<lambda>(k, v) d. AList.update k v d) kvs acc = acc @ kvs"
proof (induction kvs arbitrary: acc)
  case Nil
  then show ?case by simp
next
  case (Cons kv kvs)
  obtain k v where kv: "kv = (k, v)" by (cases kv)
  have "k \<notin> fst ` set acc" using Cons.prems kv by auto
  then have u: "AList.update k v acc = acc @ [(k, v)]" by (rule update_fresh)
  have "distinct (map fst ((acc @ [(k, v)]) @ kvs))" using Cons.prems kv by simp
  from Cons.IH [OF this] show ?case using kv u by simp
qed

lemma dict_of_distinct: "distinct (map fst kvs) \<Longrightarrow> dict_of kvs = kvs"
  unfolding dict_of_def using fold_update_distinct [of "[]" kvs] by simp

lemma map_of_fold_update:
  "map_of (fold (\<lambda>(k, v) d. AList.update k v d) kvs m0) = map_of m0 ++ map_of (rev kvs)"
proof (induction kvs arbitrary: m0)
  case Nil
  then show ?case by simp
next
  case (Cons kv kvs)
  obtain k v where kv: "kv = (k, v)" by (cases kv)
  have u: "map_of (AList.update k v m0) = (map_of m0)(k \<mapsto> v)"
    by (rule update_conv')
  have ih: "map_of (fold (\<lambda>(k, v) d. AList.update k v d) kvs (AList.update k v m0)) =
        map_of (AList.update k v m0) ++ map_of (rev kvs)"
    by (rule Cons.IH)
  have s1: "fold (\<lambda>(k, v) d. AList.update k v d) (kv # kvs) m0 =
        fold (\<lambda>(k, v) d. AList.update k v d) kvs (AList.update k v m0)"
    by (simp add: kv)
  have s2: "map_of m0 ++ map_of (rev (kv # kvs)) = (map_of m0)(k \<mapsto> v) ++ map_of (rev kvs)"
    by (simp add: kv)
  show ?case unfolding s1 ih u s2 ..
qed

lemma distinct_fold_update:
  "distinct (map fst m0) \<Longrightarrow> distinct (map fst (fold (\<lambda>(k, v) d. AList.update k v d) kvs m0))"
proof (induction kvs arbitrary: m0)
  case Nil
  then show ?case by simp
next
  case (Cons kv kvs)
  obtain k v where kv: "kv = (k, v)" by (cases kv)
  have "distinct (map fst (AList.update k v m0))" using Cons.prems by (simp add: distinct_update)
  from Cons.IH [OF this] show ?case using kv by simp
qed

lemma map_of_rev_last:
  "j < length kvs \<Longrightarrow> fst (kvs ! j) = n \<Longrightarrow>
   (\<forall>k. j < k \<and> k < length kvs \<longrightarrow> fst (kvs ! k) \<noteq> n) \<Longrightarrow>
   map_of (rev kvs) n = Some (snd (kvs ! j))"
proof (induction kvs rule: rev_induct)
  case Nil
  then show ?case by simp
next
  case (snoc x xs)
  show ?case
  proof (cases "j = length xs")
    case True
    with snoc.prems show ?thesis by (cases x) auto
  next
    case False
    with snoc.prems have j: "j < length xs" by simp
    have x: "fst x \<noteq> n" using snoc.prems(3) j
      by (metis length_append_singleton lessI nth_append_length)
    have a: "fst (xs ! j) = n" using snoc.prems(2) j by (simp add: nth_append)
    have b: "\<forall>k. j < k \<and> k < length xs \<longrightarrow> fst (xs ! k) \<noteq> n"
      using snoc.prems(3) by (metis length_append_singleton less_Suc_eq nth_append)
    have "map_of (rev xs) n = Some (snd (xs ! j))" using snoc.IH [OF j a b] .
    then show ?thesis using x j by (cases x) (auto simp: nth_append)
  qed
qed

lemma filter_key_distinct:
  "distinct (map fst m) \<Longrightarrow> map_of m n = Some v \<Longrightarrow> filter (\<lambda>kv. fst kv = n) m = [(n, v)]"
proof (induction m)
  case Nil
  then show ?case by simp
next
  case (Cons kv m)
  obtain k w where kv: "kv = (k, w)" by (cases kv)
  show ?case
  proof (cases "k = n")
    case True
    then have "n \<notin> fst ` set m" using Cons.prems(1) kv by auto
    then have "filter (\<lambda>kv. fst kv = n) m = []" by (auto simp: filter_empty_conv)
    then show ?thesis using True kv Cons.prems(2) by simp
  next
    case False
    then show ?thesis using Cons kv by simp
  qed
qed

lemma load_rows_snd:
  "snd (load_rows n rows m0) =
     (case collect parse_row rows of
        Inl e \<Rightarrow> None
      | Inr kvs \<Rightarrow> Some (fold (\<lambda>(k, v) d. AList.update k v d) kvs m0))"
proof (induction rows arbitrary: n m0)
  case Nil
  then show ?case by simp
next
  case (Cons r rows)
  show ?case
  proof (cases "parse_row r")
    case (Inl e)
    then show ?thesis by simp
  next
    case (Inr kv)
    obtain k v where kv: "kv = (k, v)" by (cases kv)
    show ?thesis using Inr kv Cons.IH [of "n + 1" "AList.update k v m0"]
      by (simp split: sum.splits)
  qed
qed

section \<open>Facts about the constructor and the metrics\<close>

lemma distinct_days_of_week: "distinct days_of_week" "length days_of_week = 7"
  by (simp_all add: days_of_week_def)

lemma collect_zip_py_int:
  "length ds = length ts \<Longrightarrow>
   collect (\<lambda>(day, sales). case py_int sales of Inl e \<Rightarrow> Inl e | Inr n \<Rightarrow> Inr (day, n))
     (zip ds ts) = Inr kvs \<Longrightarrow>
   \<exists>ns. map py_int ts = map Inr ns \<and> kvs = zip ds ns"
proof (induction ds ts arbitrary: kvs rule: list_induct2)
  case Nil
  then show ?case by simp
next
  case (Cons d ds t ts)
  from Cons.prems obtain n kvs' where
    n: "py_int t = Inr n" and
    c: "collect (\<lambda>(day, sales). case py_int sales of Inl e \<Rightarrow> Inl e | Inr n \<Rightarrow> Inr (day, n))
          (zip ds ts) = Inr kvs'" and
    k: "kvs = (d, n) # kvs'"
    by (auto split: sum.splits)
  from Cons.IH [OF c] obtain ns where "map py_int ts = map Inr ns" "kvs' = zip ds ns" by blast
  then have "map py_int (t # ts) = map Inr (n # ns) \<and> kvs = zip (d # ds) (n # ns)"
    using n k by simp
  then show ?case by blast
qed

lemma MenuItem_init_Inr:
  assumes "MenuItem_init i p c r s = Inr it"
  shows "\<exists>rt st rs kvs. r = Text rt \<and> s = Text st \<and>
           collect py_float (split_on CHR '','' rt) = Inr rs \<and> rs \<noteq> [] \<and>
           length (split_on CHR '','' st) = 7 \<and>
           collect (\<lambda>(day, sales). case py_int sales of Inl e \<Rightarrow> Inl e | Inr n \<Rightarrow> Inr (day, n))
             (zip days_of_week (split_on CHR '','' st)) = Inr kvs \<and>
           it = \<lparr>item = i, price = p, category = c, ratings = rs, sales_per_day = dict_of kvs\<rparr>"
  using assms unfolding MenuItem_init_def Let_def
  by (auto split: cell.splits sum.splits if_splits)

lemma MenuItem_init_fields:
  assumes "MenuItem_init i p c r s = Inr it"
  shows "item it = i" "price it = p" "category it = c"
  using MenuItem_init_Inr [OF assms] by auto

lemma MenuItem_init_sales:
  assumes "MenuItem_init i p c r s = Inr it"
  shows "\<exists>st ns. s = Text st \<and> length (split_on CHR '','' st) = 7 \<and>
           map py_int (split_on CHR '','' st) = map Inr ns \<and>
           sales_per_day it = zip days_of_week ns"
proof -
  from MenuItem_init_Inr [OF assms] obtain st kvs where
    s: "s = Text st" and l: "length (split_on CHR '','' st) = 7" and
    c: "collect (\<lambda>(day, sales). case py_int sales of Inl e \<Rightarrow> Inl e | Inr n \<Rightarrow> Inr (day, n))
          (zip days_of_week (split_on CHR '','' st)) = Inr kvs" and
    sp: "sales_per_day it = dict_of kvs"
    by auto
  have len: "length days_of_week = length (split_on CHR '','' st)"
    using l distinct_days_of_week(2) by simp
  from collect_zip_py_int [OF len c] obtain ns where
    ns: "map py_int (split_on CHR '','' st) = map Inr ns" and k: "kvs = zip days_of_week ns"
    by blast
  have "length ns = 7" using ns l by (metis length_map)
  then have "map fst kvs = days_of_week" using k distinct_days_of_week(2) by simp
  then have "distinct (map fst kvs)" using distinct_days_of_week(1) by simp
  then have "dict_of kvs = kvs" by (rule dict_of_distinct)
  then show ?thesis using s l ns k sp by auto
qed

lemma MenuItem_init_ratings:
  assumes "MenuItem_init i p c r s = Inr it"
  shows "\<exists>rt. r = Text rt \<and> map py_float (split_on CHR '','' rt) = map Inr (ratings it) \<and>
           ratings it \<noteq> []"
  using MenuItem_init_Inr [OF assms] by (auto simp: collect_Inr_iff)

lemma MenuItem_init_short_sales:
  assumes "length (split_on CHR '','' st) \<noteq> 7"
  shows "\<exists>e. MenuItem_init i p c r (Text st) = Inl e"
  using assms MenuItem_init_sales [of i p c r "Text st"]
  by (cases "MenuItem_init i p c r (Text st)") auto

lemma MenuItem_init_arity_error:
  assumes "length (split_on CHR '','' st) \<noteq> 7"
    and "collect py_float (split_on CHR '','' rt) = Inr rs"
  shows "MenuItem_init i p c (Text rt) (Text st) = Inl (ValueError (SalesMustHaveExactly 7 i))"
proof -
  have "rs \<noteq> []" using collect_length [OF assms(2)] split_on_not_Nil [of "CHR '',''" rt] by auto
  then show ?thesis using assms unfolding MenuItem_init_def Let_def by simp
qed

lemma py_float_error: "py_float s = Inl e \<Longrightarrow> e = ValueError (CouldNotConvertToFloat s)"
  unfolding py_float_def Let_def by (auto split: if_splits prod.splits option.splits)

lemma py_int_error: "py_int s = Inl e \<Longrightarrow> e = ValueError (InvalidLiteralForInt s)"
  unfolding py_int_def Let_def by (auto split: if_splits prod.splits)

lemma collect_Inl_elem: "collect f xs = Inl e \<Longrightarrow> \<exists>x \<in> set xs. f x = Inl e"
  by (induction xs) (auto split: sum.splits)

lemma collect_Inl_elemE:
  assumes "collect f xs = Inl e"
  obtains x where "x \<in> set xs" "f x = Inl e"
  using collect_Inl_elem [OF assms] by blast

lemma collect_nonempty: "collect f (split_on c s) = Inr rs \<Longrightarrow> rs \<noteq> []"
  using collect_length [of f "split_on c s" rs] split_on_not_Nil [of c s] by auto

lemma MenuItem_init_errors:
  assumes "MenuItem_init i p c r s = Inl e"
  shows "e = AttributeError \<or> (\<exists>x. e = ValueError (CouldNotConvertToFloat x)) \<or>
         e = ValueError (SalesMustHaveExactly 7 i) \<or>
         (\<exists>x. e = ValueError (InvalidLiteralForInt x))"
proof (cases r)
  case Missing
  with assms show ?thesis by (simp add: MenuItem_init_def)
next
  case r: (Text rt)
  show ?thesis
  proof (cases "collect py_float (split_on CHR '','' rt)")
    case (Inl e')
    then have "e = e'" using assms r by (simp add: MenuItem_init_def)
    moreover obtain x where "py_float x = Inl e'" using collect_Inl_elem [OF Inl] by blast
    ultimately show ?thesis using py_float_error by blast
  next
    case (Inr rs)
    have ne: "rs \<noteq> []" using Inr by (rule collect_nonempty)
    show ?thesis
    proof (cases s)
      case Missing
      with assms r Inr ne show ?thesis by (simp add: MenuItem_init_def)
    next
      case s: (Text st)
      show ?thesis
      proof (cases "length (split_on CHR '','' st) = 7")
        case False
        with assms r s Inr ne show ?thesis by (simp add: MenuItem_init_def)
      next
        case True
        let ?g = "\<lambda>(day, sales). case py_int sales of Inl e \<Rightarrow> Inl e | Inr n \<Rightarrow> Inr (day, n)"
        show ?thesis
        proof (cases "collect ?g (zip days_of_week (split_on CHR '','' st))")
          case (Inl e')
          then have ee: "e = e'" using assms r s Inr ne True by (simp add: MenuItem_init_def)
          from Inl obtain dx where "dx \<in> set (zip days_of_week (split_on CHR '','' st))"
            and dx: "?g dx = Inl e'" by (rule collect_Inl_elemE)
          obtain d x where "dx = (d, x)" by (cases dx)
          with dx have "py_int x = Inl e'" by (simp split: sum.splits)
          then show ?thesis using py_int_error ee by blast
        next
          case r2: (Inr kvs)
          with assms r s Inr ne True show ?thesis by (simp add: MenuItem_init_def)
        qed
      qed
    qed
  qed
qed

lemma py_float_empty: "py_float [] = Inl (ValueError (CouldNotConvertToFloat []))"
  by (simp add: py_float_def strip_def parse_sign_def parse_decimal_def Let_def)

lemma MenuItem_init_empty_ratings:
  "MenuItem_init i p c (Text []) s = Inl (ValueError (CouldNotConvertToFloat []))"
  by (simp add: MenuItem_init_def py_float_empty)

lemma average_rating_total: "\<exists>a. average_rating it = Inr a"
  unfolding average_rating_def by simp


section \<open>Facts about rows and the load\<close>

lemma validate_Inr_True: "validate_float_precision v m = Inr b \<Longrightarrow> b"
  unfolding validate_float_precision_def Let_def
  by (auto split: if_splits list.splits)

lemma validate_finite: "validate_float_precision v 2 = Inr b \<Longrightarrow> \<exists>q. v = Fin q"
  by (cases v) (simp_all add: validate_float_precision_def)

lemma parse_row_Inr:
  assumes "parse_row r = Inr (k, it)"
  shows "\<exists>ps cc rc sc. map_of r ''price'' = Some (Text ps) \<and> py_float ps = Inr (price it) \<and>
           validate_float_precision (price it) 2 = Inr True \<and>
           map_of r ''item'' = Some k \<and> map_of r ''category'' = Some cc \<and>
           map_of r ''ratings'' = Some rc \<and> map_of r ''sales_per_day'' = Some sc \<and>
           MenuItem_init k (price it) cc rc sc = Inr it"
proof -
  from assms obtain pc pv b ic cc rc sc where
    a: "map_of r ''price'' = Some pc" "float_of_cell pc = Inr pv"
       "validate_float_precision pv 2 = Inr b" "map_of r ''item'' = Some ic"
       "map_of r ''category'' = Some cc" "map_of r ''ratings'' = Some rc"
       "map_of r ''sales_per_day'' = Some sc" "MenuItem_init ic pv cc rc sc = Inr it" "k = ic"
    unfolding parse_row_def getitem_def
    by (auto split: option.splits sum.splits)
  have p: "price it = pv" using MenuItem_init_fields(2) [OF a(8)] .
  obtain ps where ps: "pc = Text ps" "py_float ps = Inr pv" using a(2) by (cases pc) auto
  have "b" using a(3) by (rule validate_Inr_True)
  then show ?thesis using a ps p by auto
qed

lemma set_update_subset: "set (AList.update k v al) \<subseteq> insert (k, v) (set al)"
  by (induction al) auto

lemma set_fold_update:
  "set (fold (\<lambda>(k, v) d. AList.update k v d) kvs m0) \<subseteq> set kvs \<union> set m0"
proof (induction kvs arbitrary: m0)
  case Nil
  then show ?case by simp
next
  case (Cons kv kvs)
  obtain k v where kv: "kv = (k, v)" by (cases kv)
  show ?case using Cons.IH [of "AList.update k v m0"] set_update_subset [of k v m0] kv
    by auto
qed

lemma load_Some_iff:
  assumes "fs filename = Some recs"
  shows "snd (load_data_from_csv fs filename) = Some m \<longleftrightarrow>
         (\<exists>kvs. map parse_row (DictReader_rows recs) = map Inr kvs \<and> m = dict_of kvs)"
proof -
  have e: "snd (load_data_from_csv fs filename) =
     (case collect parse_row (DictReader_rows recs) of
        Inl e \<Rightarrow> None
      | Inr kvs \<Rightarrow> Some (dict_of kvs))"
    unfolding dict_of_def using assms by (simp add: load_data_from_csv_def load_rows_snd)
  show ?thesis
  proof (cases "collect parse_row (DictReader_rows recs)")
    case (Inl e')
    then have "\<not> (\<exists>kvs. map parse_row (DictReader_rows recs) = map Inr kvs)"
      using collect_Inr_iff [of parse_row "DictReader_rows recs"] by auto
    then show ?thesis using e Inl by auto
  next
    case (Inr kvs)
    then have m: "map parse_row (DictReader_rows recs) = map Inr kvs"
      by (simp add: collect_Inr_iff)
    have "\<And>kvs'. map parse_row (DictReader_rows recs) = map Inr kvs' \<Longrightarrow> kvs' = kvs"
      using m by (metis Inr collect_Inr_iff sum.inject(2))
    then show ?thesis using e Inr m by auto
  qed
qed

lemma load_Some_fs: "snd (load_data_from_csv fs filename) = Some m \<Longrightarrow> \<exists>recs. fs filename = Some recs"
  by (cases "fs filename") (simp_all add: load_data_from_csv_def)

lemma load_None_if_bad_row:
  assumes "fs filename = Some recs" "r \<in> set (DictReader_rows recs)" "parse_row r = Inl e"
  shows "snd (load_data_from_csv fs filename) = None"
proof -
  have "\<exists>e. collect parse_row (DictReader_rows recs) = Inl e"
    using assms(2,3) collect_Inl_iff [of parse_row "DictReader_rows recs"] by blast
  then show ?thesis using assms(1)
    by (auto simp: load_data_from_csv_def load_rows_snd)
qed

section \<open>Facts about the report functions\<close>



section \<open>Evaluation on the example inputs\<close>

lemma floor_rat_numeral: "\<lfloor>numeral a / numeral b :: rat\<rfloor> = numeral a div numeral b"
  by (metis floor_divide_of_int_eq of_int_numeral)

lemmas eval_parse = py_float_def py_int_def strip_def is_space_def parse_decimal_def is_digit_def
  nat_of_digits_def digit_val_def scale10_def parse_sign_def to_lower_def Let_def

lemma garlic_bread_item:
  "MenuItem_init (Text ''Garlic Bread'') (Fin (699 / 100)) (Text ''Starter'')
     (Text ''4.8,4.9,4.7'') (Text ''10,5,1,15,3,5,10'') =
   Inr \<lparr>item = Text ''Garlic Bread'', price = Fin (699 / 100), category = Text ''Starter'',
        ratings = [Fin (24 / 5), Fin (49 / 10), Fin (47 / 10)],
        sales_per_day = [(''Mon'', 10), (''Tue'', 5), (''Wed'', 1), (''Thu'', 15),
                         (''Fri'', 3), (''Sat'', 5), (''Sun'', 10)]\<rparr>"
  by (simp add: MenuItem_init_def eval_parse dict_of_def days_of_week_def)

lemma six_sales: "length (split_on CHR '','' ''10,5,1,15,3,5'') = 6"
  by simp

lemma validate_699: "validate_float_precision (Fin (699 / 100)) 2 = Inr True"
  using validate_accepts_two_decimals [of 699] by simp

lemma validate_neg5: "validate_float_precision (Fin (- 5)) 2 = Inr True"
  using validate_accepts_two_decimals [of "- 500"] by simp

lemma validate_6999:
  "validate_float_precision (Fin (6999 / 1000)) 2 =
     Inl (ValueError (ExceedsAllowedDecimals (Fin (6999 / 1000)) 2))"
  using validate_rejects_three_decimals [of 6999] by simp

lemma validate_450: "validate_float_precision (Fin (9 / 2)) 2 = Inr True"
  using validate_accepts_two_decimals [of 450] by simp

lemma validate_525: "validate_float_precision (Fin (21 / 4)) 2 = Inr True"
  using validate_accepts_two_decimals [of 525] by simp

lemmas eval_row = DictReader_rows_def DictReader_row_def dict_of_def getitem_def parse_row_def
  MenuItem_init_def days_of_week_def eval_parse

lemma rows_duplicate:
  "DictReader_rows duplicate_name_file =
     [[(''item'', Text ''Soup''), (''price'', Text ''4.50''), (''category'', Text ''Starter''),
       (''ratings'', Text ''4.0''), (''sales_per_day'', Text ''1,2,3,4,5,6,7'')],
      [(''item'', Text ''Soup''), (''price'', Text ''5.25''), (''category'', Text ''Main''),
       (''ratings'', Text ''3.0,5.0''), (''sales_per_day'', Text ''7,6,5,4,3,2,1'')]]"
  by (simp add: duplicate_name_file_def DictReader_rows_def DictReader_row_def dict_of_def)

lemma parse_soup1:
  "parse_row [(''item'', Text ''Soup''), (''price'', Text ''4.50''), (''category'', Text ''Starter''),
       (''ratings'', Text ''4.0''), (''sales_per_day'', Text ''1,2,3,4,5,6,7'')] =
   Inr (Text ''Soup'', \<lparr>item = Text ''Soup'', price = Fin (9 / 2), category = Text ''Starter'',
        ratings = [Fin 4],
        sales_per_day = [(''Mon'', 1), (''Tue'', 2), (''Wed'', 3), (''Thu'', 4),
                         (''Fri'', 5), (''Sat'', 6), (''Sun'', 7)]\<rparr>)"
  by (simp add: eval_row validate_450)

lemma parse_soup2:
  "parse_row [(''item'', Text ''Soup''), (''price'', Text ''5.25''), (''category'', Text ''Main''),
       (''ratings'', Text ''3.0,5.0''), (''sales_per_day'', Text ''7,6,5,4,3,2,1'')] =
   Inr (Text ''Soup'', \<lparr>item = Text ''Soup'', price = Fin (21 / 4), category = Text ''Main'',
        ratings = [Fin 3, Fin 5],
        sales_per_day = [(''Mon'', 7), (''Tue'', 6), (''Wed'', 5), (''Thu'', 4),
                         (''Fri'', 3), (''Sat'', 2), (''Sun'', 1)]\<rparr>)"
  by (simp add: eval_row validate_525)

lemma garlic_bread_init:
  "MenuItem_init (Text ''Garlic Bread'') (Fin (699 / 100)) (Text ''Starter'')
     (Text ''4.8,4.9,4.7'') (Text ''10,5,1,15,3,5,10'') = Inr garlic_bread"
  unfolding garlic_bread_def by (rule garlic_bread_item)

lemma garlic_bread_ratings_parse:
  "map py_float (split_on CHR '','' ''4.8,4.9,4.7'') = map Inr [Fin (24 / 5), Fin (49 / 10), Fin (47 / 10)]"
  by (simp add: eval_parse)

lemma rows_bad_price:
  "DictReader_rows bad_price_file =
     [[(''item'', Text ''Soup''), (''price'', Text ''4.50''), (''category'', Text ''Starter''),
       (''ratings'', Text ''4.0''), (''sales_per_day'', Text ''1,2,3,4,5,6,7'')],
      [(''item'', Text ''Cake''), (''price'', Text ''6.999''), (''category'', Text ''Dessert''),
       (''ratings'', Text ''2.5''), (''sales_per_day'', Text ''1,2,3,4,5,6,7'')]]"
  by (simp add: bad_price_file_def DictReader_rows_def DictReader_row_def dict_of_def)

lemma parse_cake:
  "parse_row [(''item'', Text ''Cake''), (''price'', Text ''6.999''), (''category'', Text ''Dessert''),
       (''ratings'', Text ''2.5''), (''sales_per_day'', Text ''1,2,3,4,5,6,7'')] =
   Inl (ValueError (ExceedsAllowedDecimals (Fin (6999 / 1000)) 2))"
  by (simp add: eval_row validate_6999)

lemma load_duplicate:
  "snd (load_data_from_csv [''menu.csv'' \<mapsto> duplicate_name_file] ''menu.csv'') =
     Some [(Text ''Soup'',
            \<lparr>item = Text ''Soup'', price = Fin (21 / 4), category = Text ''Main'',
             ratings = [Fin 3, Fin 5],
             sales_per_day = [(''Mon'', 7), (''Tue'', 6), (''Wed'', 5), (''Thu'', 4),
                              (''Fri'', 3), (''Sat'', 2), (''Sun'', 1)]\<rparr>)]"
  by (simp add: load_data_from_csv_def rows_duplicate parse_soup1 parse_soup2)

lemma rows_negative:
  "DictReader_rows negative_price_file =
     [[(''item'', Text ''Soup''), (''price'', Text ''-5.00''), (''category'', Text ''Starter''),
       (''ratings'', Text ''4.0''), (''sales_per_day'', Text ''1,2,3,4,5,6,7'')]]"
  by (simp add: negative_price_file_def DictReader_rows_def DictReader_row_def dict_of_def)

lemma parse_negative:
  "parse_row [(''item'', Text ''Soup''), (''price'', Text ''-5.00''), (''category'', Text ''Starter''),
       (''ratings'', Text ''4.0''), (''sales_per_day'', Text ''1,2,3,4,5,6,7'')] =
   Inr (Text ''Soup'', \<lparr>item = Text ''Soup'', price = Fin (- 5), category = Text ''Starter'',
        ratings = [Fin 4],
        sales_per_day = [(''Mon'', 1), (''Tue'', 2), (''Wed'', 3), (''Thu'', 4),
                         (''Fri'', 5), (''Sat'', 6), (''Sun'', 7)]\<rparr>)"
  by (simp add: eval_row validate_neg5)

section \<open>The claims\<close>

text \<open>
  C1. The validator is documented to reject a value with more than two decimal places, and
  the claim says that every value with a third significant fractional digit is rejected.
  The check formats the value with three fractional digits only, so it accepts
  \<open>0.009765625\<close> (which is \<open>5/512\<close>, a binary64 value): it rounds to \<open>0.010\<close>, whose
  fractional part stripped of trailing zeros has two characters. (The other half of the
  claim holds: \<open>validate_accepts_two_decimals\<close>; and a value with exactly three
  fractional digits, the third not zero, is rejected:
  \<open>validate_rejects_three_decimals\<close>.)
\<close>

theorem validate_float_precision_accepts_nine_decimals:
  "py_float ''0.009765625'' = Inr (Fin (5 / 512)) \<and>
   format_f (Fin (5 / 512)) 3 = ''0.010'' \<and>
   validate_float_precision (Fin (5 / 512)) 2 = Inr True"
proof (intro conjI)
  show "py_float ''0.009765625'' = Inr (Fin (5 / 512))" by (simp add: eval_parse)
  show "format_f (Fin (5 / 512)) 3 = ''0.010''" by code_simp
  show "validate_float_precision (Fin (5 / 512)) 2 = Inr True" by code_simp
qed

text \<open>
  C2. Loading is all or nothing: for a readable file, the load returns a mapping exactly
  when every row parses, and the mapping is then the dictionary built from the items of
  all the rows in file order; as soon as one row fails (its price does not parse or fails
  the validator, its ratings do not parse, its sales have the wrong count, ...), the
  result is \<open>None\<close>.
\<close>

theorem load_all_or_nothing:
  assumes "fs filename = Some recs"
  shows "(snd (load_data_from_csv fs filename) = Some m \<longleftrightarrow>
            (\<exists>kvs. map parse_row (DictReader_rows recs) = map Inr kvs \<and> m = dict_of kvs)) \<and>
         ((\<exists>r \<in> set (DictReader_rows recs). \<exists>e. parse_row r = Inl e) \<longrightarrow>
            snd (load_data_from_csv fs filename) = None)"
  using load_Some_iff [of fs filename recs m] load_None_if_bad_row [of fs filename recs] assms by blast

text \<open>A file whose second row has the price \<open>6.999\<close>: the load returns \<open>None\<close>.\<close>

theorem load_all_or_nothing_witness:
  "[''menu.csv'' \<mapsto> bad_price_file] ''menu.csv'' = Some bad_price_file \<and>
   (\<exists>r \<in> set (DictReader_rows bad_price_file). \<exists>e. parse_row r = Inl e) \<and>
   snd (load_data_from_csv [''menu.csv'' \<mapsto> bad_price_file] ''menu.csv'') = None"
proof -
  have h: "[''menu.csv'' \<mapsto> bad_price_file] ''menu.csv'' = Some bad_price_file" by simp
  have bad: "\<exists>r \<in> set (DictReader_rows bad_price_file). \<exists>e. parse_row r = Inl e"
    unfolding rows_bad_price using parse_cake by simp
  show ?thesis
    using h bad
      load_all_or_nothing [of "[''menu.csv'' \<mapsto> bad_price_file]" "''menu.csv''" bad_price_file]
    by blast
qed







text \<open>
  C6. The constructor returns an item only if the sales field splits on commas into exactly
  seven tokens that all parse as integers, and the item's \<open>sales_per_day\<close> pairs the
  weekdays \<open>Mon\<close> to \<open>Sun\<close>, in this order, with these integers. With any other number
  of tokens no item is produced, and when the ratings field has parsed, the error is the
  one that names the expected count of 7.
\<close>

theorem sales_exactly_seven:
  "(MenuItem_init i p c r s = Inr it \<longrightarrow>
      (\<exists>st ns. s = Text st \<and> length (split_on CHR '','' st) = 7 \<and>
         map py_int (split_on CHR '','' st) = map Inr ns \<and>
         sales_per_day it = zip days_of_week ns)) \<and>
   (length (split_on CHR '','' st') \<noteq> 7 \<longrightarrow>
      (\<exists>e. MenuItem_init i p c r (Text st') = Inl e) \<and>
      (\<forall>rt rs. r = Text rt \<and> map py_float (split_on CHR '','' rt) = map Inr rs \<longrightarrow>
         MenuItem_init i p c r (Text st') = Inl (ValueError (SalesMustHaveExactly 7 i))))"
  using MenuItem_init_sales [of i p c r s it] MenuItem_init_short_sales [of st' i p c r]
    MenuItem_init_arity_error [of st' _ _ i p c]
  by (auto simp: collect_Inr_iff)

text \<open>Seven tokens give the item; six and eight tokens give the error naming 7.\<close>

theorem sales_exactly_seven_witness:
  "MenuItem_init (Text ''Garlic Bread'') (Fin (699 / 100)) (Text ''Starter'')
     (Text ''4.8,4.9,4.7'') (Text ''10,5,1,15,3,5,10'') = Inr garlic_bread \<and>
   sales_per_day garlic_bread = zip days_of_week [10, 5, 1, 15, 3, 5, 10] \<and>
   length (split_on CHR '','' ''10,5,1,15,3,5'') \<noteq> 7 \<and>
   MenuItem_init (Text ''Garlic Bread'') (Fin (699 / 100)) (Text ''Starter'')
     (Text ''4.8,4.9,4.7'') (Text ''10,5,1,15,3,5'') =
     Inl (ValueError (SalesMustHaveExactly 7 (Text ''Garlic Bread''))) \<and>
   length (split_on CHR '','' ''10,5,1,15,3,5,10,20'') \<noteq> 7 \<and>
   MenuItem_init (Text ''Garlic Bread'') (Fin (699 / 100)) (Text ''Starter'')
     (Text ''4.8,4.9,4.7'') (Text ''10,5,1,15,3,5,10,20'') =
     Inl (ValueError (SalesMustHaveExactly 7 (Text ''Garlic Bread'')))"
proof -
  have six: "length (split_on CHR '','' ''10,5,1,15,3,5'') \<noteq> 7" by simp
  have eight: "length (split_on CHR '','' ''10,5,1,15,3,5,10,20'') \<noteq> 7" by simp
  have z: "sales_per_day garlic_bread = zip days_of_week [10, 5, 1, 15, 3, 5, 10]"
    by (simp add: garlic_bread_def days_of_week_def)
  have a: "MenuItem_init (Text ''Garlic Bread'') (Fin (699 / 100)) (Text ''Starter'')
     (Text ''4.8,4.9,4.7'') (Text ''10,5,1,15,3,5'') =
     Inl (ValueError (SalesMustHaveExactly 7 (Text ''Garlic Bread'')))"
    using six garlic_bread_ratings_parse
      sales_exactly_seven [of "Text ''Garlic Bread''" "Fin (699 / 100)" "Text ''Starter''"
        "Text ''4.8,4.9,4.7''" "Text ''10,5,1,15,3,5,10''" garlic_bread "''10,5,1,15,3,5''"]
    by blast
  have b: "MenuItem_init (Text ''Garlic Bread'') (Fin (699 / 100)) (Text ''Starter'')
     (Text ''4.8,4.9,4.7'') (Text ''10,5,1,15,3,5,10,20'') =
     Inl (ValueError (SalesMustHaveExactly 7 (Text ''Garlic Bread'')))"
    using eight garlic_bread_ratings_parse
      sales_exactly_seven [of "Text ''Garlic Bread''" "Fin (699 / 100)" "Text ''Starter''"
        "Text ''4.8,4.9,4.7''" "Text ''10,5,1,15,3,5,10''" garlic_bread "''10,5,1,15,3,5,10,20''"]
    by blast
  show ?thesis using garlic_bread_init z six a eight b by blast
qed

text \<open>
  C7. Last write wins: when the load succeeds, two rows \<open>i < j\<close> carry the same name and no
  later row does, the mapping has exactly one entry under that name, and it is the item
  parsed from row \<open>j\<close>.
\<close>

theorem last_write_wins:
  assumes "fs filename = Some recs"
    and "snd (load_data_from_csv fs filename) = Some m"
    and "i < j" and "j < length (DictReader_rows recs)"
    and "map_of (DictReader_rows recs ! i) ''item'' = Some n"
    and "map_of (DictReader_rows recs ! j) ''item'' = Some n"
    and "\<forall>k. j < k \<and> k < length (DictReader_rows recs) \<longrightarrow>
           map_of (DictReader_rows recs ! k) ''item'' \<noteq> Some n"
  shows "\<exists>it. parse_row (DictReader_rows recs ! j) = Inr (n, it) \<and>
           filter (\<lambda>kv. fst kv = n) m = [(n, it)]"
proof -
  let ?rows = "DictReader_rows recs"
  from load_Some_iff [of fs filename recs m] assms(1,2) obtain kvs where
    kvs: "map parse_row ?rows = map Inr kvs" and m: "m = dict_of kvs" by blast
  have len: "length kvs = length ?rows" using kvs by (metis length_map)
  have nth: "parse_row (?rows ! k) = Inr (kvs ! k)" if "k < length ?rows" for k
    using kvs that len by (metis nth_map)
  have key: "map_of (?rows ! k) ''item'' = Some (fst (kvs ! k))" if "k < length ?rows" for k
    using parse_row_Inr [of "?rows ! k" "fst (kvs ! k)" "snd (kvs ! k)"] nth [OF that] by auto
  have kj: "fst (kvs ! j) = n" using key [OF assms(4)] assms(6) by simp
  have later: "\<forall>k. j < k \<and> k < length kvs \<longrightarrow> fst (kvs ! k) \<noteq> n"
    using assms(7) key len by auto
  have "map_of (rev kvs) n = Some (snd (kvs ! j))"
    using map_of_rev_last [of j kvs n] assms(4) len kj later by simp
  then have look: "map_of m n = Some (snd (kvs ! j))"
    unfolding m dict_of_def map_of_fold_update by simp
  have "distinct (map fst m)"
    unfolding m dict_of_def by (rule distinct_fold_update) simp
  then have "filter (\<lambda>kv. fst kv = n) m = [(n, snd (kvs ! j))]"
    using look by (rule filter_key_distinct)
  moreover have "parse_row (?rows ! j) = Inr (n, snd (kvs ! j))"
    using nth [OF assms(4)] kj by (metis prod.collapse)
  ultimately show ?thesis by blast
qed

text \<open>Two rows named \<open>Soup\<close>: the mapping holds the second one only.\<close>

theorem last_write_wins_witness:
  "snd (load_data_from_csv [''menu.csv'' \<mapsto> duplicate_name_file] ''menu.csv'') =
     Some [(Text ''Soup'',
            \<lparr>item = Text ''Soup'', price = Fin (21 / 4), category = Text ''Main'',
             ratings = [Fin 3, Fin 5],
             sales_per_day = [(''Mon'', 7), (''Tue'', 6), (''Wed'', 5), (''Thu'', 4),
                              (''Fri'', 3), (''Sat'', 2), (''Sun'', 1)]\<rparr>)] \<and>
   map_of (DictReader_rows duplicate_name_file ! 0) ''item'' = Some (Text ''Soup'') \<and>
   map_of (DictReader_rows duplicate_name_file ! 1) ''item'' = Some (Text ''Soup'') \<and>
   (\<exists>it. parse_row (DictReader_rows duplicate_name_file ! 1) = Inr (Text ''Soup'', it) \<and>
      filter (\<lambda>kv. fst kv = Text ''Soup'')
        [(Text ''Soup'',
          \<lparr>item = Text ''Soup'', price = Fin (21 / 4), category = Text ''Main'',
           ratings = [Fin 3, Fin 5],
           sales_per_day = [(''Mon'', 7), (''Tue'', 6), (''Wed'', 5), (''Thu'', 4),
                            (''Fri'', 3), (''Sat'', 2), (''Sun'', 1)]\<rparr>)] =
        [(Text ''Soup'', it)])"
proof -
  have h1: "[''menu.csv'' \<mapsto> duplicate_name_file] ''menu.csv'' = Some duplicate_name_file"
    by simp
  have h3: "(0::nat) < 1" by simp
  have h4: "1 < length (DictReader_rows duplicate_name_file)" by (simp add: rows_duplicate)
  have h5: "map_of (DictReader_rows duplicate_name_file ! 0) ''item'' = Some (Text ''Soup'')"
    by (simp add: rows_duplicate)
  have h6: "map_of (DictReader_rows duplicate_name_file ! 1) ''item'' = Some (Text ''Soup'')"
    by (simp add: rows_duplicate)
  have h7: "\<forall>k. 1 < k \<and> k < length (DictReader_rows duplicate_name_file) \<longrightarrow>
      map_of (DictReader_rows duplicate_name_file ! k) ''item'' \<noteq> Some (Text ''Soup'')"
    by (simp add: rows_duplicate)
  show ?thesis
    using load_duplicate h5 h6
      last_write_wins [of "[''menu.csv'' \<mapsto> duplicate_name_file]" "''menu.csv''"
        duplicate_name_file _ 0 1 "Text ''Soup''", OF h1 load_duplicate h3 h4 h5 h6 h7]
    by blast
qed

text \<open>
  C8, as stated, fails: the sign of the price is never tested, so a row with the price
  \<open>-5.00\<close> is loaded.
\<close>

theorem negative_price_is_loaded:
  "snd (load_data_from_csv [''menu.csv'' \<mapsto> negative_price_file] ''menu.csv'') =
     Some [(Text ''Soup'',
            \<lparr>item = Text ''Soup'', price = Fin (- 5), category = Text ''Starter'',
             ratings = [Fin 4],
             sales_per_day = [(''Mon'', 1), (''Tue'', 2), (''Wed'', 3), (''Thu'', 4),
                              (''Fri'', 5), (''Sat'', 6), (''Sun'', 7)]\<rparr>)]"
  by (simp add: load_data_from_csv_def rows_negative parse_negative)

text \<open>
  C8, amended. Every item in the mapping returned by a successful load has a finite price
  that passed \<open>validate_float_precision\<close> with the limit 2 before the item was built: it
  is the parsed price field of a row of the file, and every row of the file has a price
  field that parses and passes the validator (a row whose price does not parse or fails
  the validator makes the load fail). The sign of the price is not checked.
\<close>

theorem loaded_price_validated:
  assumes "snd (load_data_from_csv fs filename) = Some m" and "(k, it) \<in> set m"
  shows "validate_float_precision (price it) 2 = Inr True \<and> (\<exists>q. price it = Fin q) \<and>
         (\<exists>recs. fs filename = Some recs \<and>
            (\<exists>r \<in> set (DictReader_rows recs). \<exists>s. map_of r ''price'' = Some (Text s) \<and>
               py_float s = Inr (price it)) \<and>
            (\<forall>r \<in> set (DictReader_rows recs). \<exists>s v. map_of r ''price'' = Some (Text s) \<and>
               py_float s = Inr v \<and> validate_float_precision v 2 = Inr True))"
proof -
  from load_Some_fs [OF assms(1)] obtain recs where recs: "fs filename = Some recs" by blast
  let ?rows = "DictReader_rows recs"
  from load_Some_iff [of fs filename recs m] recs assms(1) obtain kvs where
    kvs: "map parse_row ?rows = map Inr kvs" and m: "m = dict_of kvs" by blast
  have "(k, it) \<in> set kvs"
    using assms(2) set_fold_update [of kvs "[]"] unfolding m dict_of_def by auto
  then have "Inr (k, it) \<in> set (map parse_row ?rows)" unfolding kvs by simp
  then obtain r where r: "r \<in> set ?rows" "parse_row r = Inr (k, it)" by auto
  from parse_row_Inr [OF r(2)] obtain ps where
    ps: "map_of r ''price'' = Some (Text ps)" "py_float ps = Inr (price it)"
        "validate_float_precision (price it) 2 = Inr True"
    by blast
  have all: "\<exists>s v. map_of r' ''price'' = Some (Text s) \<and> py_float s = Inr v \<and>
                validate_float_precision v 2 = Inr True" if "r' \<in> set ?rows" for r'
  proof -
    have "parse_row r' \<in> set (map Inr kvs)" using that kvs by (metis imageI set_map)
    then obtain k' it' where "parse_row r' = Inr (k', it')" by auto
    from parse_row_Inr [OF this] show ?thesis by blast
  qed
  show ?thesis using ps validate_finite [OF ps(3)] recs r(1) all by blast
qed

text \<open>The price of the loaded \<open>Soup\<close> passed the validator.\<close>

theorem loaded_price_validated_witness:
  "snd (load_data_from_csv [''menu.csv'' \<mapsto> duplicate_name_file] ''menu.csv'') =
     Some [(Text ''Soup'',
            \<lparr>item = Text ''Soup'', price = Fin (21 / 4), category = Text ''Main'',
             ratings = [Fin 3, Fin 5],
             sales_per_day = [(''Mon'', 7), (''Tue'', 6), (''Wed'', 5), (''Thu'', 4),
                              (''Fri'', 3), (''Sat'', 2), (''Sun'', 1)]\<rparr>)] \<and>
   validate_float_precision (Fin (21 / 4)) 2 = Inr True"
proof -
  let ?it = "\<lparr>item = Text ''Soup'', price = Fin (21 / 4), category = Text ''Main'',
             ratings = [Fin 3, Fin 5],
             sales_per_day = [(''Mon'', 7), (''Tue'', 6), (''Wed'', 5), (''Thu'', 4),
                              (''Fri'', 3), (''Sat'', 2), (''Sun'', 1)]\<rparr>"
  have m: "(Text ''Soup'', ?it) \<in> set [(Text ''Soup'', ?it)]" by simp
  from loaded_price_validated [OF load_duplicate m]
  have "validate_float_precision (price ?it) 2 = Inr True" by blast
  then show ?thesis using load_duplicate by simp
qed

text \<open>
  C9, as stated, fails where the header is absent: the error printed for an empty file
  names no column.
\<close>

theorem empty_file_names_no_columns:
  "main [''menu.csv'' \<mapsto> []] ''menu.csv'' =
     ([EmptyOrMalformed ''menu.csv'', TerminatedInvalidStructure], None)"
  by (simp add: main_def validate_csv_structure_def DictReader_fieldnames_def)

text \<open>
  C9, amended. For a readable file, when the header is absent (no record, or an empty first
  record) \<open>main\<close> prints the "empty or malformed" error and the termination line, naming
  no column; when the header is there and lacks a required column, \<open>main\<close> prints the
  missing columns (in the order of the required ones), the required columns and the
  termination line. In both cases this is the whole output, whatever the records after
  the header are: \<open>main\<close> returns before \<open>load_data_from_csv\<close> is called.
\<close>

theorem structure_checked_before_rows:
  assumes "fs filename = Some recs"
  shows "((recs = [] \<or> hd recs = []) \<longrightarrow>
            main fs filename = ([EmptyOrMalformed filename, TerminatedInvalidStructure], None)) \<and>
         (\<forall>h rest. recs = h # rest \<and> h \<noteq> [] \<and> \<not> set required_fields \<subseteq> set h \<longrightarrow>
            main fs filename =
              ([MissingColumns (filter (\<lambda>field. field \<notin> set h) required_fields),
                RequiredColumns required_fields, TerminatedInvalidStructure], None))"
proof -
  have a: "main fs filename = ([EmptyOrMalformed filename, TerminatedInvalidStructure], None)"
    if "recs = [] \<or> hd recs = []"
    using that assms
    by (cases recs) (auto simp: main_def validate_csv_structure_def DictReader_fieldnames_def)
  have b: "main fs filename =
      ([MissingColumns (filter (\<lambda>field. field \<notin> set h) required_fields),
        RequiredColumns required_fields, TerminatedInvalidStructure], None)"
    if "recs = h # rest" "h \<noteq> []" "\<not> set required_fields \<subseteq> set h" for h rest
  proof -
    have "filter (\<lambda>field. field \<notin> set h) required_fields \<noteq> []"
      using that(3) by (auto simp: filter_empty_conv)
    then show ?thesis using that(1,2) assms
      by (simp add: main_def validate_csv_structure_def DictReader_fieldnames_def Let_def)
  qed
  show ?thesis using a b by blast
qed

text \<open>A file without the \<open>category\<close> column, and a file whose first line is blank.\<close>

theorem structure_checked_before_rows_witness:
  "[''menu.csv'' \<mapsto> no_category_file] ''menu.csv'' = Some no_category_file \<and>
   main [''menu.csv'' \<mapsto> no_category_file] ''menu.csv'' =
     ([MissingColumns [''category''],
       RequiredColumns [''item'', ''price'', ''category'', ''ratings'', ''sales_per_day''],
       TerminatedInvalidStructure], None) \<and>
   main [''empty.csv'' \<mapsto> [[]]] ''empty.csv'' =
     ([EmptyOrMalformed ''empty.csv'', TerminatedInvalidStructure], None)"
proof -
  let ?h = "[''item'', ''price'', ''ratings'', ''sales_per_day'']"
  let ?rest = "[[''Soup'', ''4.50'', ''4.0'', ''1,2,3,4,5,6,7'']]"
  have h: "[''menu.csv'' \<mapsto> no_category_file] ''menu.csv'' = Some no_category_file" by simp
  have c: "no_category_file = ?h # ?rest \<and> ?h \<noteq> [] \<and> \<not> set required_fields \<subseteq> set ?h"
    by (simp add: no_category_file_def required_fields_def)
  have f: "filter (\<lambda>field. field \<notin> set ?h) required_fields = [''category'']"
    by (simp add: required_fields_def)
  from structure_checked_before_rows [of "[''menu.csv'' \<mapsto> no_category_file]" "''menu.csv''", OF h] c
  have "main [''menu.csv'' \<mapsto> no_category_file] ''menu.csv'' =
      ([MissingColumns (filter (\<lambda>field. field \<notin> set ?h) required_fields),
        RequiredColumns required_fields, TerminatedInvalidStructure], None)"
    by blast
  then have a: "main [''menu.csv'' \<mapsto> no_category_file] ''menu.csv'' =
     ([MissingColumns [''category''],
       RequiredColumns [''item'', ''price'', ''category'', ''ratings'', ''sales_per_day''],
       TerminatedInvalidStructure], None)"
    unfolding f by (simp add: required_fields_def)
  have e: "[''empty.csv'' \<mapsto> [[]]] ''empty.csv'' = Some [[]]" by simp
  have "[[]] = [] \<or> hd [[]] = ([] :: string list)" by simp
  with structure_checked_before_rows [of "[''empty.csv'' \<mapsto> [[]]]" "''empty.csv''", OF e]
  have b: "main [''empty.csv'' \<mapsto> [[]]] ''empty.csv'' =
     ([EmptyOrMalformed ''empty.csv'', TerminatedInvalidStructure], None)"
    by blast
  show ?thesis using h a b by blast
qed

text \<open>
  C10. Every item that the constructor returns has at least one rating, so that
  \<open>average_rating\<close> takes its dividing branch and the division is not by zero; the
  constructor never raises its "ratings cannot be empty" error; and an empty ratings field
  fails as the single token \<open>''\<close> that does not parse as a float.
\<close>

theorem ratings_never_empty:
  "(MenuItem_init i p c r s = Inr it \<longrightarrow>
      ratings it \<noteq> [] \<and>
      average_rating it = truediv (py_sum (ratings it)) (int (length (ratings it))) \<and>
      (\<exists>a. average_rating it = Inr a)) \<and>
   MenuItem_init i p c r s \<noteq> Inl (ValueError (RatingsCannotBeEmpty j)) \<and>
   MenuItem_init i p c (Text []) s = Inl (ValueError (CouldNotConvertToFloat []))"
proof -
  have a: "ratings it \<noteq> [] \<and>
      average_rating it = truediv (py_sum (ratings it)) (int (length (ratings it)))"
    if "MenuItem_init i p c r s = Inr it"
    using MenuItem_init_ratings [OF that] by (auto simp: average_rating_def)
  have b: "MenuItem_init i p c r s \<noteq> Inl (ValueError (RatingsCannotBeEmpty j))"
    using MenuItem_init_errors [of i p c r s "ValueError (RatingsCannotBeEmpty j)"] by auto
  show ?thesis using a b average_rating_total MenuItem_init_empty_ratings by blast
qed

text \<open>The garlic bread of the sample has three ratings.\<close>

theorem ratings_never_empty_witness:
  "MenuItem_init (Text ''Garlic Bread'') (Fin (699 / 100)) (Text ''Starter'')
     (Text ''4.8,4.9,4.7'') (Text ''10,5,1,15,3,5,10'') = Inr garlic_bread \<and>
   ratings garlic_bread \<noteq> [] \<and>
   average_rating garlic_bread = truediv (py_sum (ratings garlic_bread)) 3"
proof -
  from ratings_never_empty [of "Text ''Garlic Bread''" "Fin (699 / 100)" "Text ''Starter''"
      "Text ''4.8,4.9,4.7''" "Text ''10,5,1,15,3,5,10''" garlic_bread] garlic_bread_init
  have "ratings garlic_bread \<noteq> [] \<and>
      average_rating garlic_bread =
        truediv (py_sum (ratings garlic_bread)) (int (length (ratings garlic_bread)))"
    by blast
  moreover have "int (length (ratings garlic_bread)) = 3" by (simp add: garlic_bread_def)
  ultimately show ?thesis using garlic_bread_init by simp
qed

end
